theory Spec2Isabelle
  imports Complex_Main
begin

section \<open>The sample circuit of LiveSPICE: a tube-style distortion stage\<close>

text \<open>
  This theory embeds \<^verbatim>\<open>sample_circuit.c\<close> (with the declarations of
  \<^verbatim>\<open>circuit_api.h\<close>) and proves properties of its entry points:
  \<^verbatim>\<open>circuit_init\<close>, \<^verbatim>\<open>circuit_process\<close>,
  \<^verbatim>\<open>circuit_set_parameter\<close>, \<^verbatim>\<open>circuit_get_parameter\<close>,
  \<^verbatim>\<open>circuit_get_num_parameters\<close> and
  \<^verbatim>\<open>circuit_get_parameter_name\<close>.
\<close>

subsection \<open>Floating-point values\<close>

text \<open>
  A C \<^verbatim>\<open>double\<close> or \<^verbatim>\<open>float\<close> is a finite number, an infinity or a
  NaN. The model keeps these special values and their comparison rules (every ordered
  comparison with NaN is false), and computes on finite numbers exactly: rounding,
  overflow of a finite result to an infinity, and the sign of zero are not modelled
  (a zero divisor is taken as \<^verbatim>\<open>+0.0\<close>). The conversions between
  \<^verbatim>\<open>float\<close> and \<^verbatim>\<open>double\<close> are therefore the identity.
\<close>

datatype fp = Fin real | PInf | NInf | NaN

fun fneg :: "fp \<Rightarrow> fp" where
  "fneg (Fin x) = Fin (- x)"
| "fneg PInf = NInf"
| "fneg NInf = PInf"
| "fneg NaN = NaN"

fun fadd :: "fp \<Rightarrow> fp \<Rightarrow> fp" where
  "fadd (Fin x) (Fin y) = Fin (x + y)"
| "fadd (Fin x) PInf = PInf"
| "fadd (Fin x) NInf = NInf"
| "fadd PInf (Fin y) = PInf"
| "fadd PInf PInf = PInf"
| "fadd PInf NInf = NaN"
| "fadd NInf (Fin y) = NInf"
| "fadd NInf NInf = NInf"
| "fadd NInf PInf = NaN"
| "fadd NaN b = NaN"
| "fadd a NaN = NaN"

definition fsub :: "fp \<Rightarrow> fp \<Rightarrow> fp" where
  "fsub a b = fadd a (fneg b)"

fun fmul :: "fp \<Rightarrow> fp \<Rightarrow> fp" where
  "fmul (Fin x) (Fin y) = Fin (x * y)"
| "fmul (Fin x) PInf = (if x = 0 then NaN else if 0 < x then PInf else NInf)"
| "fmul (Fin x) NInf = (if x = 0 then NaN else if 0 < x then NInf else PInf)"
| "fmul PInf (Fin y) = (if y = 0 then NaN else if 0 < y then PInf else NInf)"
| "fmul NInf (Fin y) = (if y = 0 then NaN else if 0 < y then NInf else PInf)"
| "fmul PInf PInf = PInf"
| "fmul PInf NInf = NInf"
| "fmul NInf PInf = NInf"
| "fmul NInf NInf = PInf"
| "fmul NaN b = NaN"
| "fmul a NaN = NaN"

fun fdiv :: "fp \<Rightarrow> fp \<Rightarrow> fp" where
  "fdiv (Fin x) (Fin y) =
     (if y = 0 then (if x = 0 then NaN else if 0 < x then PInf else NInf)
      else Fin (x / y))"
| "fdiv (Fin x) PInf = Fin 0"
| "fdiv (Fin x) NInf = Fin 0"
| "fdiv PInf (Fin y) = (if 0 \<le> y then PInf else NInf)"
| "fdiv NInf (Fin y) = (if 0 \<le> y then NInf else PInf)"
| "fdiv PInf PInf = NaN"
| "fdiv PInf NInf = NaN"
| "fdiv NInf PInf = NaN"
| "fdiv NInf NInf = NaN"
| "fdiv NaN b = NaN"
| "fdiv a NaN = NaN"

text \<open>The comparison \<^verbatim>\<open>a < b\<close> of C: false as soon as an operand is NaN.\<close>

fun flt :: "fp \<Rightarrow> fp \<Rightarrow> bool" where
  "flt (Fin x) (Fin y) = (x < y)"
| "flt (Fin x) PInf = True"
| "flt NInf (Fin y) = True"
| "flt NInf PInf = True"
| "flt a b = False"

definition fgt :: "fp \<Rightarrow> fp \<Rightarrow> bool" where
  "fgt a b = flt b a"

text \<open>The comparison \<^verbatim>\<open>a <= b\<close> and the absolute value, used to state properties.\<close>

fun fle :: "fp \<Rightarrow> fp \<Rightarrow> bool" where
  "fle (Fin x) (Fin y) = (x \<le> y)"
| "fle (Fin x) PInf = True"
| "fle NInf (Fin y) = True"
| "fle NInf PInf = True"
| "fle PInf PInf = True"
| "fle NInf NInf = True"
| "fle a b = False"


subsection \<open>Machine integers\<close>

text \<open>
  A C \<^verbatim>\<open>int\<close> has 32 bits. The model computes on \<^typ>\<open>int\<close> and writes the
  two's-complement wrap-around out where a product or a sum can leave the range.
\<close>

definition INT_MAX :: int where
  "INT_MAX = 2147483647"

definition wrap32 :: "int \<Rightarrow> int" where
  "wrap32 x = (x + 2147483648) mod 4294967296 - 2147483648"

subsection \<open>Faults\<close>

text \<open>
  What C leaves undefined (a write through a null pointer, an access outside a buffer)
  is a fault of the model: the left injection of a sum type.
\<close>

datatype fault = NullDeref | OutOfBounds

definition buf_read :: "fp list \<Rightarrow> int \<Rightarrow> fault + fp" where
  "buf_read buf k = (if 0 \<le> k \<and> k < int (length buf) then Inr (buf ! nat k) else Inl OutOfBounds)"

definition buf_write :: "fp list \<Rightarrow> int \<Rightarrow> fp \<Rightarrow> fault + fp list" where
  "buf_write buf k v =
     (if 0 \<le> k \<and> k < int (length buf) then Inr (buf[nat k := v]) else Inl OutOfBounds)"

subsection \<open>The data model\<close>

text \<open>
  \<^verbatim>\<open>SampleCircuitState\<close> of \<^verbatim>\<open>sample_circuit.c\<close>; its field
  \<^verbatim>\<open>sample_rate\<close> (a double) is named \<open>state_sample_rate\<close> here, the name
  \<open>sample_rate\<close> being the context's field.
\<close>

record SampleCircuitState =
  gain :: fp
  threshold :: fp
  makeup_gain :: fp
  last_output :: fp
  state_sample_rate :: fp

text \<open>
  \<^verbatim>\<open>CircuitContext\<close> of \<^verbatim>\<open>circuit_api.h\<close>. The pointer
  \<^verbatim>\<open>internal_state\<close> is modelled by its pointee, \<open>None\<close> being the null
  pointer; \<^verbatim>\<open>parameters\<close> is the array it points to.
\<close>

record CircuitContext =
  internal_state :: "SampleCircuitState option"
  sample_rate :: int
  buffer_size :: int
  timestep :: fp
  oversample :: int
  parameters :: "fp list"
  num_parameters :: int

definition parameter_names :: "string list" where
  "parameter_names = [''Gain'', ''Distortion'', ''Volume'']"

definition num_params :: int where
  "num_params = 3"

subsection \<open>The saturation function\<close>

text \<open>
  \<^verbatim>\<open>tube_saturate(x, threshold)\<close>; the parameter is written \<open>t\<close>,
  \<open>threshold\<close> being a field of the state record.
\<close>

definition tube_saturate :: "fp \<Rightarrow> fp \<Rightarrow> fp" where
  "tube_saturate x t =
     (if fgt x t then
        fadd t (fdiv (fsub x t) (fadd (Fin 1) (fdiv (fsub x t) t)))
      else if flt x (fneg t) then
        fadd (fneg t) (fdiv (fadd x t) (fsub (Fin 1) (fdiv (fadd x t) t)))
      else x)"


subsection \<open>Parameters\<close>

text \<open>
  \<^verbatim>\<open>circuit_set_parameter\<close>: the context pointer may be null (\<open>None\<close>); the
  name is a C string, compared with \<^verbatim>\<open>strcmp\<close>. The result is the context
  after the call.
\<close>

definition param_store :: "CircuitContext \<Rightarrow> int \<Rightarrow> fp \<Rightarrow> fault + CircuitContext option" where
  "param_store ctx k v =
     (case buf_write (parameters ctx) k v of
        Inl e \<Rightarrow> Inl e
      | Inr ps \<Rightarrow> Inr (Some (ctx\<lparr>parameters := ps\<rparr>)))"

definition circuit_set_parameter ::
  "CircuitContext option \<Rightarrow> string \<Rightarrow> fp \<Rightarrow> fault + CircuitContext option" where
  "circuit_set_parameter ctxp name val =
     (case ctxp of
        None \<Rightarrow> Inr None
      | Some ctx \<Rightarrow>
          (let val = (if flt val (Fin 0) then Fin 0 else val);
               val = (if fgt val (Fin 1) then Fin 1 else val)
           in if name = ''Gain'' then param_store ctx 0 val
              else if name = ''Distortion'' then param_store ctx 1 val
              else if name = ''Volume'' then param_store ctx 2 val
              else Inr (Some ctx)))"

definition circuit_get_parameter :: "CircuitContext option \<Rightarrow> string \<Rightarrow> fault + fp" where
  "circuit_get_parameter ctxp name =
     (case ctxp of
        None \<Rightarrow> Inr (Fin 0)
      | Some ctx \<Rightarrow>
          if name = ''Gain'' then buf_read (parameters ctx) 0
          else if name = ''Distortion'' then buf_read (parameters ctx) 1
          else if name = ''Volume'' then buf_read (parameters ctx) 2
          else Inr (Fin 0))"

definition circuit_get_num_parameters :: "CircuitContext option \<Rightarrow> int" where
  "circuit_get_num_parameters ctxp = num_params"

text \<open>\<^verbatim>\<open>circuit_get_parameter_name\<close>: \<open>None\<close> is the null pointer it returns.\<close>

definition circuit_get_parameter_name :: "CircuitContext option \<Rightarrow> int \<Rightarrow> string option" where
  "circuit_get_parameter_name ctxp index =
     (if index \<ge> 0 \<and> index < num_params then Some (parameter_names ! nat index) else None)"

subsection \<open>Processing\<close>

text \<open>
  The inner loop of \<^verbatim>\<open>circuit_process\<close>,
  \<^verbatim>\<open>for (os = 0; os < oversample; os++)\<close>. Its body does not use the counter, so
  the loop is the body repeated \<open>nat oversample\<close> times (no time when
  \<^verbatim>\<open>oversample\<close> is zero or negative). It returns the local
  \<^verbatim>\<open>processed\<close> and the state.
\<close>

fun oversample_loop ::
  "nat \<Rightarrow> fp \<Rightarrow> SampleCircuitState \<Rightarrow> fp \<Rightarrow> fp \<times> SampleCircuitState" where
  "oversample_loop 0 sample state processed = (processed, state)"
| "oversample_loop (Suc n) sample state processed =
     (let amplified = fmul sample (gain state);
          distorted = tube_saturate amplified (threshold state);
          processed = fmul distorted (makeup_gain state);
          processed = fadd (fmul (Fin 0.5) processed) (fmul (Fin 0.5) (last_output state));
          state = state\<lparr>last_output := processed\<rparr>
      in oversample_loop n sample state processed)"

text \<open>
  The loop \<^verbatim>\<open>for (ch = 0; ch < num_channels; ch++) output[i * num_channels + ch] = processed\<close>.
\<close>

function write_channels :: "int \<Rightarrow> int \<Rightarrow> int \<Rightarrow> fp \<Rightarrow> fp list \<Rightarrow> fault + fp list" where
  "write_channels ch num_channels i processed output =
     (if ch < num_channels then
        (case buf_write output (wrap32 (wrap32 (i * num_channels) + ch)) processed of
           Inl e \<Rightarrow> Inl e
         | Inr output' \<Rightarrow> write_channels (ch + 1) num_channels i processed output')
      else Inr output)"
  by pat_completeness auto
termination
  by (relation "measure (\<lambda>(ch, num_channels, i, processed, output). nat (num_channels - ch))") auto

text \<open>The body of the loop over the samples, for the sample of index \<open>i\<close>.\<close>

definition process_sample ::
  "int \<Rightarrow> int \<Rightarrow> int \<Rightarrow> fp list \<Rightarrow> SampleCircuitState \<Rightarrow> fp list
     \<Rightarrow> fault + (SampleCircuitState \<times> fp list)" where
  "process_sample i num_channels ovs input state output =
     (case buf_read input (wrap32 (i * num_channels)) of
        Inl e \<Rightarrow> Inl e
      | Inr sample \<Rightarrow>
          (let (processed, state') = oversample_loop (nat ovs) sample state (Fin 0);
               processed = fdiv processed (Fin (of_int ovs))
           in case write_channels 0 num_channels i processed output of
                Inl e \<Rightarrow> Inl e
              | Inr output' \<Rightarrow> Inr (state', output')))"

text \<open>The loop \<^verbatim>\<open>for (i = 0; i < num_samples; i++)\<close>, from the index \<open>i\<close> on.\<close>

function sample_loop ::
  "int \<Rightarrow> int \<Rightarrow> int \<Rightarrow> int \<Rightarrow> fp list \<Rightarrow> SampleCircuitState \<Rightarrow> fp list
     \<Rightarrow> fault + (SampleCircuitState \<times> fp list)" where
  "sample_loop i num_samples num_channels ovs input state output =
     (if i < num_samples then
        (case process_sample i num_channels ovs input state output of
           Inl e \<Rightarrow> Inl e
         | Inr (state', output') \<Rightarrow>
             sample_loop (i + 1) num_samples num_channels ovs input state' output')
      else Inr (state, output))"
  by pat_completeness auto
termination
  by (relation "measure (\<lambda>(i, num_samples, num_channels, ovs, input, state, output).
        nat (num_samples - i))") auto

text \<open>
  \<^verbatim>\<open>circuit_process\<close>. It returns the context and the output buffer after the
  call; the input buffer is only read.
\<close>

definition circuit_process ::
  "CircuitContext option \<Rightarrow> fp list \<Rightarrow> fp list \<Rightarrow> int \<Rightarrow> int
     \<Rightarrow> fault + (CircuitContext option \<times> fp list)" where
  "circuit_process ctxp input output num_samples num_channels =
     (case ctxp of
        None \<Rightarrow> Inr (None, output)
      | Some ctx \<Rightarrow>
          (case internal_state ctx of
             None \<Rightarrow> Inr (Some ctx, output)
           | Some state \<Rightarrow>
               (case buf_read (parameters ctx) 0 of Inl e \<Rightarrow> Inl e | Inr p0 \<Rightarrow>
               (case buf_read (parameters ctx) 1 of Inl e \<Rightarrow> Inl e | Inr p1 \<Rightarrow>
               (case buf_read (parameters ctx) 2 of Inl e \<Rightarrow> Inl e | Inr p2 \<Rightarrow>
                  (let gain' = fadd (Fin 0.5) (fmul p0 (Fin 9.5));
                       distortion = fadd (Fin 0.1) (fmul p1 (Fin 0.9));
                       volume = p2;
                       state = state\<lparr>gain := gain', threshold := distortion, makeup_gain := volume\<rparr>
                   in case sample_loop 0 num_samples num_channels (oversample ctx) input state output of
                        Inl e \<Rightarrow> Inl e
                      | Inr (state', output') \<Rightarrow>
                          Inr (Some (ctx\<lparr>internal_state := Some state'\<rparr>), output')))))))"

subsection \<open>Creation\<close>

text \<open>
  The allocator: \<open>live\<close> lists the blocks allocated and not yet freed, \<open>outcomes\<close>
  tells for each coming call of \<^verbatim>\<open>malloc\<close> whether it succeeds (when the list
  is exhausted, the call fails). \<^verbatim>\<open>malloc\<close> returns the address of the new block, or \<open>None\<close>
  for the null pointer.
\<close>

record heap =
  live :: "nat list"
  next_addr :: nat
  outcomes :: "bool list"

definition malloc :: "heap \<Rightarrow> nat option \<times> heap" where
  "malloc h =
     (case outcomes h of
        [] \<Rightarrow> (None, h)
      | ok # rest \<Rightarrow>
          if ok then
            (Some (next_addr h),
             h\<lparr>live := next_addr h # live h, next_addr := Suc (next_addr h), outcomes := rest\<rparr>)
          else (None, h\<lparr>outcomes := rest\<rparr>))"

definition free :: "nat \<Rightarrow> heap \<Rightarrow> heap" where
  "free a h = h\<lparr>live := removeAll a (live h)\<rparr>"

text \<open>
  \<^verbatim>\<open>circuit_init\<close>. The result is the returned pointer (\<open>None\<close> is null) or a
  fault, with the heap after the call. The third allocation, of the parameter array, is
  not checked by the code: when it fails, the stores to
  \<^verbatim>\<open>ctx->parameters[0]\<close> go through a null pointer. The product
  \<^verbatim>\<open>sample_rate * oversample\<close> is a product of two \<^verbatim>\<open>int\<close>s. The
  messages printed on the console are not modelled.
\<close>

definition circuit_init ::
  "int \<Rightarrow> int \<Rightarrow> int \<Rightarrow> heap \<Rightarrow> (fault + CircuitContext option) \<times> heap" where
  "circuit_init sample_rate' buffer_size' oversample' h =
     (case malloc h of
        (None, h1) \<Rightarrow> (Inr None, h1)
      | (Some ctx_addr, h1) \<Rightarrow>
          (case malloc h1 of
             (None, h2) \<Rightarrow> (Inr None, free ctx_addr h2)
           | (Some state_addr, h2) \<Rightarrow>
               (let state = \<lparr>gain = Fin 1, threshold = Fin 0.5, makeup_gain = Fin 0.7,
                             last_output = Fin 0,
                             state_sample_rate = Fin (of_int sample_rate')\<rparr>
                in case malloc h2 of
                     (None, h3) \<Rightarrow> (Inl NullDeref, h3)
                   | (Some params_addr, h3) \<Rightarrow>
                       (Inr (Some \<lparr>internal_state = Some state,
                                   sample_rate = sample_rate',
                                   buffer_size = buffer_size',
                                   timestep = fdiv (Fin 1)
                                     (Fin (of_int (wrap32 (sample_rate' * oversample')))),
                                   oversample = oversample',
                                   parameters = [Fin 0.5, Fin 0.5, Fin 0.7],
                                   num_parameters = num_params\<rparr>), h3))))"

subsection \<open>Instances and example values\<close>

text \<open>
  An instance as \<^verbatim>\<open>circuit_init\<close> builds it: the state is present and the
  parameter array has its three cells.
\<close>

definition valid_instance :: "CircuitContext \<Rightarrow> bool" where
  "valid_instance ctx = (internal_state ctx \<noteq> None \<and> length (parameters ctx) = 3)"

text \<open>Whether the \<open>k\<close>-th coming call of \<^verbatim>\<open>malloc\<close> succeeds.\<close>

definition alloc_ok :: "heap \<Rightarrow> nat \<Rightarrow> bool" where
  "alloc_ok h k = (k < length (outcomes h) \<and> outcomes h ! k)"

text \<open>An empty heap with given allocation outcomes, and the instance that
  \<^verbatim>\<open>circuit_init(48000, 256, 8)\<close> returns.\<close>

definition heap0 :: "bool list \<Rightarrow> heap" where
  "heap0 bs = \<lparr>live = [], next_addr = 0, outcomes = bs\<rparr>"

definition ctx0 :: CircuitContext where
  "ctx0 = \<lparr>internal_state = Some \<lparr>gain = Fin 1, threshold = Fin 0.5, makeup_gain = Fin 0.7,
                                   last_output = Fin 0, state_sample_rate = Fin 48000\<rparr>,
           sample_rate = 48000, buffer_size = 256, timestep = Fin (1 / 384000),
           oversample = 8, parameters = [Fin 0.5, Fin 0.5, Fin 0.7], num_parameters = 3\<rparr>"

text \<open>A parameter value within the range of the specification, \<open>[0, 1]\<close>.\<close>

definition in_unit_range :: "fp \<Rightarrow> bool" where
  "in_unit_range p = (fle (Fin 0) p \<and> fle p (Fin 1))"

definition params_in_range :: "CircuitContext \<Rightarrow> bool" where
  "params_in_range ctx = list_all in_unit_range (parameters ctx)"

text \<open>
  The state of an instance after the first statements of \<^verbatim>\<open>circuit_process\<close>
  have mapped the parameters to the gain, the threshold and the output level.
\<close>

definition mapped_state :: "CircuitContext \<Rightarrow> SampleCircuitState" where
  "mapped_state ctx =
     (the (internal_state ctx))
       \<lparr>gain := fadd (Fin 0.5) (fmul (parameters ctx ! 0) (Fin 9.5)),
        threshold := fadd (Fin 0.1) (fmul (parameters ctx ! 1) (Fin 0.9)),
        makeup_gain := parameters ctx ! 2\<rparr>"

text \<open>
  What \<^verbatim>\<open>circuit_process\<close> computes on well-sized buffers, as a function on
  lists: \<open>channel0\<close> takes the first channel of each frame of an interleaved buffer,
  \<open>mono_run\<close> runs the oversampling loop on each of these samples in turn, and
  \<open>broadcast\<close> repeats each result on all channels of its frame. These functions
  serve the proofs; the lemma \<open>circuit_process_char\<close> relates them to the code.
\<close>

definition channel0 :: "int \<Rightarrow> int \<Rightarrow> fp list \<Rightarrow> fp list" where
  "channel0 ns nc input = map (\<lambda>j. input ! (j * nat nc)) [0..<nat ns]"

fun mono_run :: "int \<Rightarrow> SampleCircuitState \<Rightarrow> fp list \<Rightarrow> SampleCircuitState \<times> fp list" where
  "mono_run ovs state [] = (state, [])"
| "mono_run ovs state (x # xs) =
     (case oversample_loop (nat ovs) x state (Fin 0) of
        (p, state') \<Rightarrow>
          (case mono_run ovs state' xs of
             (state'', vs) \<Rightarrow> (state'', fdiv p (Fin (of_int ovs)) # vs)))"

definition broadcast :: "int \<Rightarrow> fp list \<Rightarrow> fp list" where
  "broadcast nc vs = concat (map (replicate (nat nc)) vs)"

text \<open>
  Two more instances: \<open>ctx_ring\<close> is the instance that
  \<^verbatim>\<open>circuit_init(48000, 256, 1)\<close> returns, after it has processed one sample
  equal to 1; \<open>ctx_nan\<close> is the instance \<open>ctx0\<close> after it has processed one
  sample equal to \<^verbatim>\<open>+infinity\<close>.
\<close>

definition ctx_ring :: CircuitContext where
  "ctx_ring = ctx0\<lparr>timestep := Fin (1 / 48000), oversample := 1,
     internal_state := Some \<lparr>gain = Fin 5.25, threshold = Fin 0.55, makeup_gain = Fin 0.7,
                             last_output = Fin (2189 / 6000),
                             state_sample_rate = Fin 48000\<rparr>\<rparr>"


declare write_channels.simps [simp del] sample_loop.simps [simp del]


section \<open>Properties\<close>

subsection \<open>Creation\<close>

lemma circuit_init_example:
  "circuit_init 48000 256 8 (heap0 [True, True, True]) =
     (Inr (Some ctx0), \<lparr>live = [2, 1, 0], next_addr = 3, outcomes = []\<rparr>)"
  by (simp add: circuit_init_def malloc_def heap0_def ctx0_def wrap32_def num_params_def)

lemma valid_instance_ctx0: "valid_instance ctx0"
  by (simp add: valid_instance_def ctx0_def)

lemma circuit_init_valid:
  "fst (circuit_init sr bs ovs h) = Inr (Some ctx) \<Longrightarrow> valid_instance ctx"
  by (auto simp: circuit_init_def malloc_def valid_instance_def Let_def
      split: list.splits if_splits prod.splits option.splits)

text \<open>
  When one of the two checked allocations fails, \<^verbatim>\<open>circuit_init\<close> returns null
  and leaves no block behind (on a heap whose live blocks lie below the next fresh
  address).
\<close>

lemma circuit_init_null_releases:
  assumes "fst (circuit_init sr bs ovs h) = Inr None" and "\<forall>a \<in> set (live h). a < next_addr h"
  shows "live (snd (circuit_init sr bs ovs h)) = live h"
  using assms
  by (auto simp: circuit_init_def malloc_def free_def Let_def
      split: list.splits if_splits prod.splits option.splits)

text \<open>
  C2, at the input where it fails: the instance record and the internal state are
  allocated, and the allocation of the parameter array fails. The code does not return
  null: it writes the default parameters through the null pointer, and the two blocks
  already allocated stay allocated.
\<close>

theorem circuit_init_params_alloc_failure:
  "circuit_init 48000 256 8 (heap0 [True, True, False]) =
     (Inl NullDeref, \<lparr>live = [1, 0], next_addr = 2, outcomes = []\<rparr>)"
  by (simp add: circuit_init_def malloc_def heap0_def)

text \<open>
  C9: the time step stored by a successful \<^verbatim>\<open>circuit_init\<close> is the double
  division of 1 by the 32-bit product of the sample rate and the oversampling factor:
  the number \<open>1 / p\<close> when this product \<open>p\<close> is not 0. For a positive sample rate and
  a factor of at least 1 whose product fits an \<^verbatim>\<open>int\<close>, it is the number
  \<open>1 / (sample_rate * oversample)\<close>.
\<close>

theorem timestep_derivation:
  assumes "fst (circuit_init sr bs ovs h) = Inr (Some ctx)"
  shows "timestep ctx = fdiv (Fin 1) (Fin (of_int (wrap32 (sr * ovs)))) \<and>
         (wrap32 (sr * ovs) \<noteq> 0 \<longrightarrow>
            timestep ctx = Fin (1 / of_int (wrap32 (sr * ovs)))) \<and>
         (0 < sr \<and> 1 \<le> ovs \<and> sr * ovs \<le> INT_MAX \<longrightarrow>
            timestep ctx = Fin (1 / (of_int sr * of_int ovs)))"
proof -
  have t: "timestep ctx = fdiv (Fin 1) (Fin (of_int (wrap32 (sr * ovs))))"
    using assms
    by (auto simp: circuit_init_def malloc_def Let_def
        split: list.splits if_splits prod.splits option.splits)
  have "wrap32 (sr * ovs) = sr * ovs \<and> sr * ovs \<noteq> 0"
    if "0 < sr" "1 \<le> ovs" "sr * ovs \<le> INT_MAX"
  proof -
    have "0 < sr * ovs" using that by simp
    then show ?thesis using that by (simp add: wrap32_def INT_MAX_def)
  qed
  then show ?thesis using t by auto
qed

theorem timestep_derivation_witness:
  "fst (circuit_init 48000 256 8 (heap0 [True, True, True])) = Inr (Some ctx0) \<and>
   wrap32 (48000 * 8) \<noteq> 0 \<and> (0::int) < 48000 \<and> (1::int) \<le> 8 \<and> 48000 * 8 \<le> INT_MAX \<and>
   timestep ctx0 = Fin (1 / of_int (wrap32 (48000 * 8))) \<and>
   timestep ctx0 = Fin (1 / (of_int 48000 * of_int 8))"
  using timestep_derivation [of 48000 256 8 "heap0 [True, True, True]" ctx0]
  by (simp add: circuit_init_example INT_MAX_def ctx0_def wrap32_def)

text \<open>When the product wraps around to 0, the time step is \<^verbatim>\<open>+infinity\<close>.\<close>

lemma timestep_overflow_example:
  "fst (circuit_init 65536 256 65536 (heap0 [True, True, True])) =
     Inr (Some (ctx0\<lparr>internal_state := Some \<lparr>gain = Fin 1, threshold = Fin 0.5,
                         makeup_gain = Fin 0.7, last_output = Fin 0,
                         state_sample_rate = Fin 65536\<rparr>,
                       sample_rate := 65536, timestep := PInf, oversample := 65536\<rparr>))"
  by (simp add: circuit_init_def malloc_def heap0_def ctx0_def wrap32_def num_params_def)

text \<open>
  C10: \<^verbatim>\<open>circuit_init\<close> looks at no argument value. Whatever the sample rate,
  the buffer size and the oversampling factor, it returns an instance holding these
  values when its three allocations succeed, and it returns null only when the first
  or the second allocation has failed.
\<close>

theorem circuit_init_no_validation:
  "(alloc_ok h 0 \<and> alloc_ok h 1 \<and> alloc_ok h 2 \<longrightarrow>
      (\<exists>ctx. fst (circuit_init sr bs ovs h) = Inr (Some ctx) \<and> valid_instance ctx \<and>
         sample_rate ctx = sr \<and> buffer_size ctx = bs \<and> oversample ctx = ovs)) \<and>
   (fst (circuit_init sr bs ovs h) = Inr None \<longrightarrow> \<not> alloc_ok h 0 \<or> \<not> alloc_ok h 1)"
  by (cases "outcomes h"; cases "tl (outcomes h)"; cases "tl (tl (outcomes h))")
     (auto simp: circuit_init_def malloc_def alloc_ok_def valid_instance_def Let_def)

theorem circuit_init_no_validation_witness:
  "alloc_ok (heap0 [True, True, True]) 0 \<and> alloc_ok (heap0 [True, True, True]) 1 \<and>
   alloc_ok (heap0 [True, True, True]) 2 \<and>
   (\<exists>ctx. fst (circuit_init 0 (- 5) (- 1) (heap0 [True, True, True])) = Inr (Some ctx) \<and>
      valid_instance ctx \<and> sample_rate ctx = 0 \<and> buffer_size ctx = - 5 \<and> oversample ctx = - 1) \<and>
   fst (circuit_init 0 (- 5) (- 1) (heap0 [False])) = Inr None \<and>
   \<not> alloc_ok (heap0 [False]) 0"
  using circuit_init_no_validation [of "heap0 [True, True, True]" 0 "- 5" "- 1"]
    circuit_init_no_validation [of "heap0 [False]" 0 "- 5" "- 1"]
  by (simp add: alloc_ok_def heap0_def circuit_init_def malloc_def)

subsection \<open>The saturation function\<close>



text \<open>
  On an infinite input the same expression yields NaN (an infinity divided by an
  infinity), and a NaN input is returned as it is.
\<close>

lemma tube_saturate_nonfinite:
  assumes "0 < t"
  shows "tube_saturate PInf (Fin t) = NaN \<and> tube_saturate NInf (Fin t) = NaN \<and>
         tube_saturate NaN (Fin t) = NaN"
  using assms by (simp add: tube_saturate_def fgt_def fsub_def)

subsection \<open>Parameters\<close>

text \<open>
  The two comparisons of \<^verbatim>\<open>circuit_set_parameter\<close>, and the value that a
  following \<^verbatim>\<open>circuit_get_parameter\<close> of the same name returns.
\<close>

lemma clamp_low:
  "flt v (Fin 0) \<Longrightarrow>
     (if fgt (if flt v (Fin 0) then Fin 0 else v) (Fin 1) then Fin 1
      else (if flt v (Fin 0) then Fin 0 else v)) = Fin 0"
  by (simp add: fgt_def)

lemma clamp_high:
  "fgt v (Fin 1) \<Longrightarrow>
     (if fgt (if flt v (Fin 0) then Fin 0 else v) (Fin 1) then Fin 1
      else (if flt v (Fin 0) then Fin 0 else v)) = Fin 1"
  by (cases v) (simp_all add: fgt_def)

lemma set_get_parameter:
  assumes "length (parameters ctx) = 3" and "name \<in> set parameter_names"
  shows "\<exists>ctx'. circuit_set_parameter (Some ctx) name v = Inr (Some ctx') \<and>
           circuit_get_parameter (Some ctx') name =
             Inr (if fgt (if flt v (Fin 0) then Fin 0 else v) (Fin 1) then Fin 1
                  else (if flt v (Fin 0) then Fin 0 else v))"
proof -
  obtain p0 p1 p2 where ps: "parameters ctx = [p0, p1, p2]"
    using assms(1) by (auto simp: length_Suc_conv numeral_3_eq_3)
  consider "name = ''Gain''" | "name = ''Distortion''" | "name = ''Volume''"
    using assms(2) by (auto simp: parameter_names_def)
  then show ?thesis
  proof cases
    case 1
    then show ?thesis
      by (simp add: circuit_set_parameter_def circuit_get_parameter_def param_store_def
          buf_write_def buf_read_def Let_def ps)
  next
    case 2
    then show ?thesis
      by (simp add: circuit_set_parameter_def circuit_get_parameter_def param_store_def
          buf_write_def buf_read_def Let_def ps)
  next
    case 3
    then show ?thesis
      by (simp add: circuit_set_parameter_def circuit_get_parameter_def param_store_def
          buf_write_def buf_read_def Let_def ps)
  qed
qed

text \<open>
  C6: on an instance, for each of the three parameter names, setting a value below 0
  stores 0 and setting a value above 1 stores 1: the call succeeds and the following
  \<^verbatim>\<open>circuit_get_parameter\<close> of that name returns exactly 0, respectively 1.
\<close>

theorem clamping_round_trip:
  assumes "valid_instance ctx" and "name \<in> set parameter_names"
  shows "(flt v (Fin 0) \<longrightarrow>
            (\<exists>ctx'. circuit_set_parameter (Some ctx) name v = Inr (Some ctx') \<and>
               circuit_get_parameter (Some ctx') name = Inr (Fin 0))) \<and>
         (fgt v (Fin 1) \<longrightarrow>
            (\<exists>ctx'. circuit_set_parameter (Some ctx) name v = Inr (Some ctx') \<and>
               circuit_get_parameter (Some ctx') name = Inr (Fin 1)))"
proof -
  have len: "length (parameters ctx) = 3"
    using assms(1) by (simp add: valid_instance_def)
  obtain ctx' where r: "circuit_set_parameter (Some ctx) name v = Inr (Some ctx')"
    "circuit_get_parameter (Some ctx') name =
       Inr (if fgt (if flt v (Fin 0) then Fin 0 else v) (Fin 1) then Fin 1
            else (if flt v (Fin 0) then Fin 0 else v))"
    using set_get_parameter [OF len assms(2), of v] by blast
  have "circuit_get_parameter (Some ctx') name = Inr (Fin 0)" if "flt v (Fin 0)"
    using r(2) clamp_low [OF that] by simp
  moreover have "circuit_get_parameter (Some ctx') name = Inr (Fin 1)" if "fgt v (Fin 1)"
    using r(2) clamp_high [OF that] by simp
  ultimately show ?thesis
    using r(1) by blast
qed

theorem clamping_round_trip_witness:
  "valid_instance ctx0 \<and> ''Volume'' \<in> set parameter_names \<and>
   flt (Fin (- 3)) (Fin 0) \<and> fgt PInf (Fin 1) \<and>
   (\<exists>ctx'. circuit_set_parameter (Some ctx0) ''Volume'' (Fin (- 3)) = Inr (Some ctx') \<and>
      circuit_get_parameter (Some ctx') ''Volume'' = Inr (Fin 0)) \<and>
   (\<exists>ctx'. circuit_set_parameter (Some ctx0) ''Volume'' PInf = Inr (Some ctx') \<and>
      circuit_get_parameter (Some ctx') ''Volume'' = Inr (Fin 1))"
  using clamping_round_trip [of ctx0 "''Volume''" "Fin (- 3)"]
    clamping_round_trip [of ctx0 "''Volume''" PInf]
  by (simp add: valid_instance_ctx0 parameter_names_def fgt_def)

text \<open>
  C7: with a name that is none of the three parameter names,
  \<^verbatim>\<open>circuit_set_parameter\<close> returns the context as it was and
  \<^verbatim>\<open>circuit_get_parameter\<close> returns 0; with an index below 0 or not below the
  number of parameters, \<^verbatim>\<open>circuit_get_parameter_name\<close> returns null. None of
  them is a fault.
\<close>

theorem unknown_names_and_indices:
  "(name \<notin> set parameter_names \<longrightarrow>
      circuit_set_parameter ctxp name v = Inr ctxp \<and>
      circuit_get_parameter ctxp name = Inr (Fin 0)) \<and>
   (index < 0 \<or> circuit_get_num_parameters ctxp \<le> index \<longrightarrow>
      circuit_get_parameter_name ctxp index = None)"
  by (auto simp: circuit_set_parameter_def circuit_get_parameter_def parameter_names_def
      circuit_get_parameter_name_def circuit_get_num_parameters_def Let_def
      split: option.splits)

theorem unknown_names_and_indices_witness:
  "''Tone'' \<notin> set parameter_names \<and>
   circuit_set_parameter (Some ctx0) ''Tone'' (Fin 2) = Inr (Some ctx0) \<and>
   circuit_get_parameter (Some ctx0) ''Tone'' = Inr (Fin 0) \<and>
   circuit_get_num_parameters (Some ctx0) \<le> 3 \<and>
   circuit_get_parameter_name (Some ctx0) 3 = None \<and>
   circuit_get_parameter_name (Some ctx0) (- 1) = None"
  using unknown_names_and_indices [of "''Tone''" "Some ctx0" "Fin 2" 3]
    unknown_names_and_indices [of "''Tone''" "Some ctx0" "Fin 2" "- 1"]
  by (simp add: parameter_names_def circuit_get_num_parameters_def num_params_def)

text \<open>
  The range of the parameters: \<^verbatim>\<open>circuit_init\<close> establishes it, and
  \<^verbatim>\<open>circuit_set_parameter\<close> keeps it for every value that is not a NaN.
\<close>

lemma circuit_init_params_in_range:
  "fst (circuit_init sr bs ovs h) = Inr (Some ctx) \<Longrightarrow> params_in_range ctx"
  by (auto simp: circuit_init_def malloc_def params_in_range_def in_unit_range_def Let_def
      split: list.splits if_splits prod.splits option.splits)

lemma clamp_in_unit_range:
  assumes "v \<noteq> NaN"
  shows "in_unit_range (if fgt (if flt v (Fin 0) then Fin 0 else v) (Fin 1) then Fin 1
                        else (if flt v (Fin 0) then Fin 0 else v))"
  using assms by (cases v) (auto simp: in_unit_range_def fgt_def)

lemma list_all_update:
  "list_all P xs \<Longrightarrow> P v \<Longrightarrow> list_all P (xs[k := v])"
  by (induction xs arbitrary: k) (auto split: nat.splits)

lemma set_parameter_preserves_range:
  assumes "params_in_range ctx" "v \<noteq> NaN"
    "circuit_set_parameter (Some ctx) name v = Inr (Some ctx')"
  shows "params_in_range ctx'"
proof -
  define w where "w = (if fgt (if flt v (Fin 0) then Fin 0 else v) (Fin 1) then Fin 1
                        else (if flt v (Fin 0) then Fin 0 else v))"
  have w: "in_unit_range w"
    unfolding w_def using assms(2) by (rule clamp_in_unit_range)
  have "parameters ctx' = parameters ctx \<or> (\<exists>k. parameters ctx' = (parameters ctx)[k := w])"
    using assms(3)
    by (auto simp: circuit_set_parameter_def param_store_def buf_write_def w_def Let_def
        split: if_splits)
  then show ?thesis
    using assms(1) w by (auto simp: params_in_range_def list_all_update)
qed

text \<open>
  C4, at the input where it fails: \<^verbatim>\<open>circuit_set_parameter\<close> called with a NaN.
  Both comparisons of the clamp are false, the NaN is stored, and the stored parameter
  is neither at least 0 nor at most 1; the threshold that
  \<^verbatim>\<open>circuit_process\<close> then computes is NaN as well.
\<close>

theorem set_parameter_stores_nan:
  "circuit_set_parameter (Some ctx0) ''Distortion'' NaN =
     Inr (Some (ctx0\<lparr>parameters := [Fin 0.5, NaN, Fin 0.7]\<rparr>)) \<and>
   \<not> fle (Fin 0) NaN \<and> \<not> fle NaN (Fin 1) \<and>
   fadd (Fin 0.1) (fmul NaN (Fin 0.9)) = NaN"
  by (simp add: circuit_set_parameter_def param_store_def buf_write_def ctx0_def fgt_def)

subsection \<open>Processing: the code on well-sized buffers\<close>

text \<open>
  The buffers of a call are well-sized when they hold exactly
  \<open>num_samples * num_channels\<close> values, with at least one channel, and this
  product fits an \<^verbatim>\<open>int\<close>. Then no index wraps around, every access is
  within its buffer, and the call returns the broadcast mono run.
\<close>

lemma wrap32_id: "0 \<le> x \<Longrightarrow> x \<le> INT_MAX \<Longrightarrow> wrap32 x = x"
  by (simp add: wrap32_def INT_MAX_def)

lemma write_channels_char:
  assumes "0 \<le> i" "0 \<le> ch" "ch \<le> nc" "(i + 1) * nc \<le> int (length out)"
    "(i + 1) * nc \<le> INT_MAX"
  shows "write_channels ch nc i v out =
     Inr (take (nat (i * nc + ch)) out @ replicate (nat (nc - ch)) v
          @ drop (nat ((i + 1) * nc)) out)"
  using assms
proof (induction ch nc i v out rule: write_channels.induct)
  case (1 ch nc i v out)
  show ?case
  proof (cases "ch < nc")
    case False
    with "1.prems" have e: "ch = nc" by simp
    have "i * nc + nc = (i + 1) * nc" by (simp add: algebra_simps)
    then show ?thesis using e by (simp add: write_channels.simps [of nc nc])
  next
    case True
    define k where "k = i * nc + ch"
    have inc: "0 \<le> i * nc" using "1.prems" by simp
    have k0: "0 \<le> k" using inc "1.prems" by (simp add: k_def)
    have kb: "k < (i + 1) * nc" using True by (simp add: k_def algebra_simps)
    have w1: "wrap32 (i * nc) = i * nc"
      using inc kb "1.prems" True by (intro wrap32_id) (auto simp: k_def)
    have w2: "wrap32 (i * nc + ch) = k"
      using k0 kb "1.prems" by (simp add: k_def wrap32_id)
    have kl: "nat k < length out" using kb k0 "1.prems" by linarith
    have bw: "buf_write out (wrap32 (wrap32 (i * nc) + ch)) v = Inr (out[nat k := v])"
      using k0 kl by (simp add: w1 w2 buf_write_def)
    have ih: "write_channels (ch + 1) nc i v (out[nat k := v]) =
        Inr (take (nat (i * nc + (ch + 1))) (out[nat k := v])
             @ replicate (nat (nc - (ch + 1))) v
             @ drop (nat ((i + 1) * nc)) (out[nat k := v]))"
      using "1.IH" [OF True bw] "1.prems" True by simp
    have n1: "nat (i * nc + (ch + 1)) = Suc (nat k)" using k0 by (simp add: k_def nat_add_distrib)
    have t: "take (Suc (nat k)) (out[nat k := v]) = take (nat k) out @ [v]"
      using kl by (simp add: take_Suc_conv_app_nth)
    have d: "drop (nat ((i + 1) * nc)) (out[nat k := v]) = drop (nat ((i + 1) * nc)) out"
      using kb k0 by simp
    have "nat (nc - ch) = Suc (nat (nc - (ch + 1)))" using True by linarith
    then have r: "replicate (nat (nc - ch)) v = v # replicate (nat (nc - (ch + 1))) v"
      by simp
    have step: "write_channels ch nc i v out = write_channels (ch + 1) nc i v (out[nat k := v])"
      by (subst write_channels.simps) (simp add: True bw)
    have "take (nat (i * nc + (ch + 1))) (out[nat k := v]) @ replicate (nat (nc - (ch + 1))) v
             @ drop (nat ((i + 1) * nc)) (out[nat k := v])
          = take (nat k) out @ replicate (nat (nc - ch)) v @ drop (nat ((i + 1) * nc)) out"
      by (simp add: n1 t d r)
    then show ?thesis
      using step ih by (simp add: k_def)
  qed
qed


lemma process_sample_char:
  assumes "1 \<le> nc" "0 \<le> i" "i < ns" "length input = nat (ns * nc)"
    "length out = nat (ns * nc)" "ns * nc \<le> INT_MAX"
  shows "process_sample i nc ovs input state out =
     (case oversample_loop (nat ovs) (input ! nat (i * nc)) state (Fin 0) of
        (p, s') \<Rightarrow> Inr (s', take (nat (i * nc)) out
                           @ replicate (nat nc) (fdiv p (Fin (of_int ovs)))
                           @ drop (nat ((i + 1) * nc)) out))"
proof -
  have le: "(i + 1) * nc \<le> ns * nc"
    using assms by (intro mult_right_mono) auto
  have lt: "i * nc < ns * nc"
    using assms by (intro mult_strict_right_mono) auto
  have i0: "0 \<le> i * nc" using assms by simp
  have "i * nc \<le> INT_MAX" using lt assms(6) by linarith
  then have w: "wrap32 (i * nc) = i * nc"
    using i0 by (intro wrap32_id)
  have rd: "buf_read input (wrap32 (i * nc)) = Inr (input ! nat (i * nc))"
    using i0 lt assms by (simp add: buf_read_def w)
  have wr: "write_channels 0 nc i v out =
      Inr (take (nat (i * nc)) out @ replicate (nat nc) v @ drop (nat ((i + 1) * nc)) out)" for v
    using write_channels_char [of i 0 nc out v] assms le by simp
  show ?thesis
    by (simp add: process_sample_def rd wr Let_def split: prod.splits)
qed

lemma sample_loop_char:
  assumes "1 \<le> nc" "0 \<le> i" "i \<le> ns" "length input = nat (ns * nc)"
    "length out = nat (ns * nc)" "ns * nc \<le> INT_MAX"
  shows "sample_loop i ns nc ovs input state out =
     (case mono_run ovs state (map (\<lambda>j. input ! (j * nat nc)) [nat i..<nat ns]) of
        (s', vs) \<Rightarrow> Inr (s', take (nat (i * nc)) out @ broadcast nc vs))"
  using assms
proof (induction i ns nc ovs input state out rule: sample_loop.induct)
  case (1 i ns nc ovs input state out)
  show ?case
  proof (cases "i < ns")
    case False
    with "1.prems" have "i = ns" by simp
    then show ?thesis
      using "1.prems" by (simp add: sample_loop.simps [of ns ns] broadcast_def)
  next
    case True
    obtain p s1 where os: "oversample_loop (nat ovs) (input ! nat (i * nc)) state (Fin 0) = (p, s1)"
      by (cases "oversample_loop (nat ovs) (input ! nat (i * nc)) state (Fin 0)")
    define v where "v = fdiv p (Fin (of_int ovs))"
    define out1 where
      "out1 = take (nat (i * nc)) out @ replicate (nat nc) v @ drop (nat ((i + 1) * nc)) out"
    have ps: "process_sample i nc ovs input state out = Inr (s1, out1)"
      using process_sample_char [of nc i ns input out ovs state] "1.prems" True os
      by (simp add: v_def out1_def)
    have le: "(i + 1) * nc \<le> ns * nc"
      using "1.prems" True by (intro mult_right_mono) auto
    have i0: "0 \<le> i * nc" using "1.prems" by simp
    have n1: "nat ((i + 1) * nc) = nat (i * nc) + nat nc"
      using "1.prems" i0 by (simp add: algebra_simps nat_add_distrib)
    have n2: "nat (i * nc) + nat nc \<le> nat (ns * nc)"
      using le n1 by linarith
    have l1: "length out1 = nat (ns * nc)"
      using "1.prems" n2 by (simp add: out1_def n1)
    have tk: "take (nat ((i + 1) * nc)) out1 = take (nat (i * nc)) out @ replicate (nat nc) v"
      using "1.prems" n2 by (simp add: out1_def n1)
    obtain s2 vs where mr:
      "mono_run ovs s1 (map (\<lambda>j. input ! (j * nat nc)) [nat (i + 1)..<nat ns]) = (s2, vs)"
      by (cases "mono_run ovs s1 (map (\<lambda>j. input ! (j * nat nc)) [nat (i + 1)..<nat ns])")
    have ih: "sample_loop (i + 1) ns nc ovs input s1 out1 =
        Inr (s2, take (nat ((i + 1) * nc)) out1 @ broadcast nc vs)"
      using "1.IH" [OF True ps refl] "1.prems" True l1 mr by simp
    have up: "[nat i..<nat ns] = nat i # [nat (i + 1)..<nat ns]"
      using "1.prems" True by (simp add: upt_conv_Cons nat_add_distrib)
    have ix: "nat i * nat nc = nat (i * nc)"
      using "1.prems" by (simp add: nat_mult_distrib)
    have step: "sample_loop i ns nc ovs input state out = sample_loop (i + 1) ns nc ovs input s1 out1"
      by (subst sample_loop.simps) (simp add: True ps)
    show ?thesis
      unfolding step ih tk by (simp add: up ix os mr v_def broadcast_def)
  qed
qed


lemma oversample_loop_state:
  "\<exists>l. snd (oversample_loop n x s p) = s\<lparr>last_output := l\<rparr>"
proof (induction n arbitrary: s p)
  case 0
  have "snd (oversample_loop 0 x s p) = s\<lparr>last_output := last_output s\<rparr>" by simp
  then show ?case by blast
next
  case (Suc n)
  define pr where "pr = fadd (fmul (Fin 0.5)
      (fmul (tube_saturate (fmul x (gain s)) (threshold s)) (makeup_gain s)))
      (fmul (Fin 0.5) (last_output s))"
  obtain l where "snd (oversample_loop n x (s\<lparr>last_output := pr\<rparr>) pr)
      = (s\<lparr>last_output := pr\<rparr>)\<lparr>last_output := l\<rparr>"
    using Suc.IH by blast
  then have "snd (oversample_loop (Suc n) x s p) = s\<lparr>last_output := l\<rparr>"
    by (simp add: Let_def pr_def)
  then show ?case by blast
qed

lemma mono_run_state:
  "\<exists>l. fst (mono_run ovs s xs) = s\<lparr>last_output := l\<rparr>"
proof (induction xs arbitrary: s)
  case Nil
  have "fst (mono_run ovs s []) = s\<lparr>last_output := last_output s\<rparr>" by simp
  then show ?case by blast
next
  case (Cons x xs)
  obtain p s1 where os: "oversample_loop (nat ovs) x s (Fin 0) = (p, s1)"
    by (cases "oversample_loop (nat ovs) x s (Fin 0)")
  obtain l1 where l1: "s1 = s\<lparr>last_output := l1\<rparr>"
    using oversample_loop_state [of "nat ovs" x s "Fin 0"] os by auto
  obtain l2 where l2: "fst (mono_run ovs s1 xs) = s1\<lparr>last_output := l2\<rparr>"
    using Cons.IH by blast
  have "fst (mono_run ovs s (x # xs)) = s\<lparr>last_output := l2\<rparr>"
    using os l1 l2 by (auto split: prod.splits)
  then show ?case by blast
qed

lemma mono_run_append:
  "mono_run ovs s (xs @ ys) =
     (case mono_run ovs s xs of
        (s1, v1) \<Rightarrow> (case mono_run ovs s1 ys of (s2, v2) \<Rightarrow> (s2, v1 @ v2)))"
  by (induction xs arbitrary: s) (auto split: prod.splits)

lemma channel0_append:
  assumes "1 \<le> nc" "0 \<le> N" "0 \<le> M" "length in1 = nat (N * nc)"
  shows "channel0 (N + M) nc (in1 @ in2) = channel0 N nc in1 @ channel0 M nc in2"
proof -
  define n where "n = nat N"
  define m where "m = nat M"
  define c where "c = nat nc"
  have len: "length in1 = n * c"
    using assms by (simp add: nat_mult_distrib n_def c_def)
  have c0: "0 < c" using assms(1) by (simp add: c_def)
  have a: "map (\<lambda>j. (in1 @ in2) ! (j * c)) [0..<n] = map (\<lambda>j. in1 ! (j * c)) [0..<n]"
  proof (rule map_cong [OF refl])
    fix j assume "j \<in> set [0..<n]"
    then have "j < n" by simp
    then have "j * c < n * c" using c0 by simp
    then show "(in1 @ in2) ! (j * c) = in1 ! (j * c)"
      by (simp add: nth_append len)
  qed
  have sh: "(in1 @ in2) ! ((j + n) * c) = in2 ! (j * c)" for j
  proof -
    have "(j + n) * c = length in1 + j * c" by (simp add: len add_mult_distrib)
    then show ?thesis by (simp only: nth_append_length_plus)
  qed
  have "map (\<lambda>j. (in1 @ in2) ! (j * c)) [n..<m + n]
         = map (\<lambda>j. (in1 @ in2) ! (j * c)) (map (\<lambda>j. j + n) [0..<m])"
    by (simp only: map_add_upt)
  also have "\<dots> = map (\<lambda>j. in2 ! (j * c)) [0..<m]"
    by (simp only: map_map comp_def sh)
  finally have b: "map (\<lambda>j. (in1 @ in2) ! (j * c)) [n..<m + n]
         = map (\<lambda>j. in2 ! (j * c)) [0..<m]" .
  have nm: "nat (N + M) = m + n"
    using assms(2,3) by (simp add: nat_add_distrib n_def m_def)
  have "[0..<m + n] = [0..<n] @ [n..<m + n]"
    by (metis add.commute upt_add_eq_append zero_le)
  then have "map (\<lambda>j. (in1 @ in2) ! (j * c)) [0..<m + n]
      = map (\<lambda>j. in1 ! (j * c)) [0..<n] @ map (\<lambda>j. in2 ! (j * c)) [0..<m]"
    by (simp only: map_append a b)
  then show ?thesis
    by (simp only: channel0_def nm n_def [symmetric] m_def [symmetric] c_def [symmetric])
qed

lemma circuit_process_char:
  assumes "valid_instance ctx" "1 \<le> nc" "0 \<le> ns" "length input = nat (ns * nc)"
    "length out = nat (ns * nc)" "ns * nc \<le> INT_MAX"
  shows "circuit_process (Some ctx) input out ns nc =
     (case mono_run (oversample ctx) (mapped_state ctx) (channel0 ns nc input) of
        (s', vs) \<Rightarrow> Inr (Some (ctx\<lparr>internal_state := Some s'\<rparr>), broadcast nc vs))"
proof -
  obtain st where st: "internal_state ctx = Some st"
    using assms(1) by (auto simp: valid_instance_def)
  have len: "length (parameters ctx) = 3"
    using assms(1) by (simp add: valid_instance_def)
  have sl: "sample_loop 0 ns nc (oversample ctx) input (mapped_state ctx) out =
      (case mono_run (oversample ctx) (mapped_state ctx) (channel0 ns nc input) of
         (s', vs) \<Rightarrow> Inr (s', broadcast nc vs))"
    using sample_loop_char [of nc 0 ns input out "oversample ctx" "mapped_state ctx"] assms
    by (simp add: channel0_def)
  show ?thesis
    using sl by (simp add: circuit_process_def st len buf_read_def mapped_state_def Let_def
        split: prod.splits)
qed

lemma mapped_state_after:
  assumes "fst (mono_run ovs (mapped_state ctx) xs) = s1"
  shows "mapped_state (ctx\<lparr>internal_state := Some s1\<rparr>) = s1"
proof -
  obtain l where "s1 = (mapped_state ctx)\<lparr>last_output := l\<rparr>"
    using mono_run_state [of ovs "mapped_state ctx" xs] assms by auto
  then show ?thesis
    by (simp add: mapped_state_def)
qed

lemma length_mono_run: "length (snd (mono_run ovs s xs)) = length xs"
proof (induction xs arbitrary: s)
  case Nil
  show ?case by simp
next
  case (Cons x xs)
  obtain p s1 where os: "oversample_loop (nat ovs) x s (Fin 0) = (p, s1)"
    by (cases "oversample_loop (nat ovs) x s (Fin 0)")
  show ?case
    using Cons.IH [of s1] os by (auto split: prod.splits)
qed

lemma nth_concat_replicate:
  "i < length vs \<Longrightarrow> ch < c \<Longrightarrow> concat (map (replicate c) vs) ! (i * c + ch) = vs ! i"
proof (induction vs arbitrary: i)
  case Nil
  then show ?case by simp
next
  case (Cons v vs)
  show ?case
  proof (cases i)
    case 0
    then show ?thesis using Cons.prems by (simp add: nth_append)
  next
    case (Suc j)
    have "Suc j * c + ch = length (replicate c v) + (j * c + ch)" by simp
    then have "(replicate c v @ concat (map (replicate c) vs)) ! (Suc j * c + ch)
        = concat (map (replicate c) vs) ! (j * c + ch)"
      by (simp only: nth_append_length_plus)
    then show ?thesis using Cons Suc by simp
  qed
qed

lemma length_concat_replicate: "length (concat (map (replicate c) vs)) = length vs * c"
  by (induction vs) auto

lemma channel0_cong:
  assumes "0 \<le> nc" and "\<forall>i. 0 \<le> i \<and> i < ns \<longrightarrow> in1 ! nat (i * nc) = in2 ! nat (i * nc)"
  shows "channel0 ns nc in1 = channel0 ns nc in2"
  unfolding channel0_def
proof (rule map_cong [OF refl])
  fix j assume "j \<in> set [0..<nat ns]"
  then have j: "0 \<le> int j \<and> int j < ns" by auto
  have "nat (int j * nc) = j * nat nc"
    using assms(1) by (simp add: nat_mult_distrib)
  then show "in1 ! (j * nat nc) = in2 ! (j * nat nc)"
    using assms(2) j by metis
qed

subsection \<open>Processing: silence\<close>











subsection \<open>Processing: continuity, channels and decay\<close>



lemma ctx_ring_reached:
  "fst (circuit_init 48000 256 1 (heap0 [True, True, True])) =
     Inr (Some (ctx0\<lparr>timestep := Fin (1 / 48000), oversample := 1\<rparr>)) \<and>
   circuit_process (Some (ctx0\<lparr>timestep := Fin (1 / 48000), oversample := 1\<rparr>))
     [Fin 1] [Fin 0] 1 1 = Inr (Some ctx_ring, [Fin (2189 / 6000)])"
  by code_simp

text \<open>
  C1: on an instance, with well-sized buffers, processing \<open>N\<close> frames and then \<open>M\<close>
  frames succeeds and gives the outputs, one after the other, and the final context that
  one call on the \<open>N + M\<close> frames gives.
\<close>

theorem state_continuity:
  assumes "valid_instance ctx" "1 \<le> nc" "0 \<le> N" "0 \<le> M"
    "length in1 = nat (N * nc)" "length in2 = nat (M * nc)"
    "length out1 = nat (N * nc)" "length out2 = nat (M * nc)"
    "length out = nat ((N + M) * nc)" "(N + M) * nc \<le> INT_MAX"
  shows "\<exists>ctx1 o1 ctx2 o2.
     circuit_process (Some ctx) in1 out1 N nc = Inr (Some ctx1, o1) \<and>
     circuit_process (Some ctx1) in2 out2 M nc = Inr (Some ctx2, o2) \<and>
     circuit_process (Some ctx) (in1 @ in2) out (N + M) nc = Inr (Some ctx2, o1 @ o2)"
proof -
  have nm: "0 \<le> N * nc" "0 \<le> M * nc" using assms(2,3,4) by simp_all
  have sum: "(N + M) * nc = N * nc + M * nc" by (simp add: algebra_simps)
  have bN: "N * nc \<le> INT_MAX" and bM: "M * nc \<le> INT_MAX"
    using assms(10) nm sum by linarith+
  obtain s1 v1 where r1: "mono_run (oversample ctx) (mapped_state ctx) (channel0 N nc in1) = (s1, v1)"
    by (cases "mono_run (oversample ctx) (mapped_state ctx) (channel0 N nc in1)")
  define ctx1 where "ctx1 = ctx\<lparr>internal_state := Some s1\<rparr>"
  obtain s2 v2 where r2: "mono_run (oversample ctx) s1 (channel0 M nc in2) = (s2, v2)"
    by (cases "mono_run (oversample ctx) s1 (channel0 M nc in2)")
  define ctx2 where "ctx2 = ctx\<lparr>internal_state := Some s2\<rparr>"
  have v1: "valid_instance ctx1"
    using assms(1) by (simp add: ctx1_def valid_instance_def)
  have ms: "mapped_state ctx1 = s1"
    unfolding ctx1_def using mapped_state_after [of "oversample ctx" ctx "channel0 N nc in1" s1] r1
    by simp
  have p1: "circuit_process (Some ctx) in1 out1 N nc = Inr (Some ctx1, broadcast nc v1)"
    using circuit_process_char [OF assms(1,2,3,5,7) bN] r1 by (simp add: ctx1_def)
  have p2: "circuit_process (Some ctx1) in2 out2 M nc = Inr (Some ctx2, broadcast nc v2)"
    using circuit_process_char [OF v1 assms(2,4,6,8) bM] r2 ms
    by (simp add: ctx1_def ctx2_def)
  have nn: "0 \<le> N + M" using assms(3,4) by simp
  have li: "length (in1 @ in2) = nat ((N + M) * nc)"
    using assms(5,6) nm by (simp add: sum nat_add_distrib)
  have p: "circuit_process (Some ctx) (in1 @ in2) out (N + M) nc =
      Inr (Some ctx2, broadcast nc (v1 @ v2))"
    using circuit_process_char [OF assms(1,2) nn li assms(9,10)] r1 r2
    by (simp add: channel0_append [OF assms(2,3,4,5)] mono_run_append ctx2_def)
  show ?thesis
    using p1 p2 p by (auto simp: broadcast_def)
qed

theorem state_continuity_witness:
  "valid_instance ctx0 \<and> (1 + 1) * 2 \<le> INT_MAX \<and>
   (\<exists>ctx1 o1 ctx2 o2.
      circuit_process (Some ctx0) [Fin 1, Fin 0] [Fin 0, Fin 0] 1 2 = Inr (Some ctx1, o1) \<and>
      circuit_process (Some ctx1) [Fin 0, Fin 0] [Fin 0, Fin 0] 1 2 = Inr (Some ctx2, o2) \<and>
      circuit_process (Some ctx0) ([Fin 1, Fin 0] @ [Fin 0, Fin 0])
        [Fin 0, Fin 0, Fin 0, Fin 0] (1 + 1) 2 = Inr (Some ctx2, o1 @ o2))"
  using state_continuity [of ctx0 2 1 1 "[Fin 1, Fin 0]" "[Fin 0, Fin 0]" "[Fin 0, Fin 0]"
      "[Fin 0, Fin 0]" "[Fin 0, Fin 0, Fin 0, Fin 0]"]
  by (simp add: valid_instance_ctx0 INT_MAX_def)

text \<open>
  C5: on an instance, with well-sized buffers and at least one channel, two input buffers
  that agree on the first channel of every frame give the same result (output buffer and
  context), whatever the other channels and the previous content of the output buffers;
  and in the output every value of a frame equals the first value of that frame.
\<close>

theorem mono_source_channel_replication:
  assumes "valid_instance ctx" "1 \<le> nc" "0 \<le> ns" "ns * nc \<le> INT_MAX"
    "length in1 = nat (ns * nc)" "length in2 = nat (ns * nc)"
    "length out1 = nat (ns * nc)" "length out2 = nat (ns * nc)"
    "\<forall>i. 0 \<le> i \<and> i < ns \<longrightarrow> in1 ! nat (i * nc) = in2 ! nat (i * nc)"
  shows "circuit_process (Some ctx) in1 out1 ns nc = circuit_process (Some ctx) in2 out2 ns nc \<and>
    (\<exists>ctx' out'. circuit_process (Some ctx) in1 out1 ns nc = Inr (Some ctx', out') \<and>
       length out' = nat (ns * nc) \<and>
       (\<forall>i ch. 0 \<le> i \<and> i < ns \<and> 0 \<le> ch \<and> ch < nc \<longrightarrow>
          out' ! nat (i * nc + ch) = out' ! nat (i * nc)))"
proof -
  have ch: "channel0 ns nc in1 = channel0 ns nc in2"
    using channel0_cong [of nc ns in1 in2] assms(2,9) by simp
  obtain s' vs where mr: "mono_run (oversample ctx) (mapped_state ctx) (channel0 ns nc in1) = (s', vs)"
    by (cases "mono_run (oversample ctx) (mapped_state ctx) (channel0 ns nc in1)")
  have p1: "circuit_process (Some ctx) in1 out1 ns nc =
      Inr (Some (ctx\<lparr>internal_state := Some s'\<rparr>), broadcast nc vs)"
    using circuit_process_char [OF assms(1,2,3,5,7,4)] mr by simp
  have p2: "circuit_process (Some ctx) in2 out2 ns nc =
      Inr (Some (ctx\<lparr>internal_state := Some s'\<rparr>), broadcast nc vs)"
    using circuit_process_char [OF assms(1,2,3,6,8,4)] mr ch by simp
  have lv: "length vs = nat ns"
    using length_mono_run [of "oversample ctx" "mapped_state ctx" "channel0 ns nc in1"] mr
    by (simp add: channel0_def)
  have len: "length (broadcast nc vs) = nat (ns * nc)"
    using assms(2,3) by (simp add: broadcast_def length_concat_replicate lv nat_mult_distrib)
  have rep: "broadcast nc vs ! nat (i * nc + ch) = broadcast nc vs ! nat (i * nc)"
    if "0 \<le> i" "i < ns" "0 \<le> ch" "ch < nc" for i ch
  proof -
    have a: "nat (i * nc + ch) = nat i * nat nc + nat ch"
      using that assms(2) by (simp add: nat_add_distrib nat_mult_distrib)
    have b: "nat (i * nc) = nat i * nat nc + 0"
      using that assms(2) by (simp add: nat_mult_distrib)
    have i: "nat i < length vs" using that lv by simp
    have "nat ch < nat nc" using that by simp
    moreover have "0 < nat nc" using assms(2) by simp
    ultimately show ?thesis
      unfolding a b broadcast_def using i by (simp only: nth_concat_replicate)
  qed
  show ?thesis
    using p1 p2 len rep by simp
qed

theorem mono_source_channel_replication_witness:
  "valid_instance ctx0 \<and> 2 * 2 \<le> INT_MAX \<and>
   [Fin 1, Fin 3, Fin 2, Fin 4] ! nat (0 * 2) = [Fin 1, NaN, Fin 2, PInf] ! nat (0 * 2) \<and>
   [Fin 1, Fin 3, Fin 2, Fin 4] ! nat (1 * 2) = [Fin 1, NaN, Fin 2, PInf] ! nat (1 * 2) \<and>
   circuit_process (Some ctx0) [Fin 1, Fin 3, Fin 2, Fin 4] [Fin 0, Fin 0, Fin 0, Fin 0] 2 2 =
     circuit_process (Some ctx0) [Fin 1, NaN, Fin 2, PInf] [Fin 9, Fin 9, Fin 9, Fin 9] 2 2 \<and>
   (\<exists>ctx' out'.
      circuit_process (Some ctx0) [Fin 1, Fin 3, Fin 2, Fin 4] [Fin 0, Fin 0, Fin 0, Fin 0] 2 2 =
        Inr (Some ctx', out') \<and>
      length out' = 4 \<and> out' ! 1 = out' ! 0 \<and> out' ! 3 = out' ! 2)"
proof -
  have a: "\<forall>i. 0 \<le> i \<and> i < 2 \<longrightarrow>
      [Fin 1, Fin 3, Fin 2, Fin 4] ! nat (i * 2) = [Fin 1, NaN, Fin 2, PInf] ! nat (i * 2)"
  proof (intro allI impI)
    fix i :: int
    assume "0 \<le> i \<and> i < 2"
    then have "i = 0 \<or> i = 1" by auto
    then show "[Fin 1, Fin 3, Fin 2, Fin 4] ! nat (i * 2) = [Fin 1, NaN, Fin 2, PInf] ! nat (i * 2)"
      by auto
  qed
  have b: "(2::int) * 2 \<le> INT_MAX" by (simp add: INT_MAX_def)
  have l: "length [Fin 1, Fin 3, Fin 2, Fin 4] = nat (2 * 2)"
    "length [Fin 1, NaN, Fin 2, PInf] = nat (2 * 2)"
    "length [Fin 0, Fin 0, Fin 0, Fin 0 :: fp] = nat (2 * 2)"
    "length [Fin 9, Fin 9, Fin 9, Fin 9 :: fp] = nat (2 * 2)"
    by simp_all
  have c: "(1::int) \<le> 2" "(0::int) \<le> 2" by simp_all
  note r = mono_source_channel_replication [OF valid_instance_ctx0 c b l a]
  from r obtain ctx' out' where o:
    "circuit_process (Some ctx0) [Fin 1, Fin 3, Fin 2, Fin 4] [Fin 0, Fin 0, Fin 0, Fin 0] 2 2 =
          Inr (Some ctx', out')"
    "length out' = nat (2 * 2)"
    "\<forall>i ch. 0 \<le> i \<and> i < 2 \<and> 0 \<le> ch \<and> ch < 2 \<longrightarrow>
           out' ! nat (i * 2 + ch) = out' ! nat (i * 2)"
    by blast
  have "out' ! nat (0 * 2 + 1) = out' ! nat (0 * 2)" by (intro o(3) [rule_format]) simp
  moreover have "out' ! nat (1 * 2 + 1) = out' ! nat (1 * 2)" by (intro o(3) [rule_format]) simp
  ultimately have "out' ! 1 = out' ! 0" "out' ! 3 = out' ! 2"
    by (simp_all add: eval_nat_numeral)
  moreover have "length out' = 4" using o(2) by simp
  ultimately have ex: "\<exists>ctx' out'.
      circuit_process (Some ctx0) [Fin 1, Fin 3, Fin 2, Fin 4] [Fin 0, Fin 0, Fin 0, Fin 0] 2 2 =
        Inr (Some ctx', out') \<and>
      length out' = 4 \<and> out' ! 1 = out' ! 0 \<and> out' ! 3 = out' ! 2"
    using o(1) by blast
  have h: "[Fin 1, Fin 3, Fin 2, Fin 4] ! nat (0 * 2) = [Fin 1, NaN, Fin 2, PInf] ! nat (0 * 2)"
    "[Fin 1, Fin 3, Fin 2, Fin 4] ! nat (1 * 2) = [Fin 1, NaN, Fin 2, PInf] ! nat (1 * 2)"
    by simp_all
  show ?thesis
    using valid_instance_ctx0 b h r [THEN conjunct1] ex by blast
qed




end
